theory Spec2Isabelle
  imports Complex_Main "HOL-Library.AList" "HOL-Library.Sublist" "HOL-Library.Multiset"
    "HOL-Library.List_Lexorder" "HOL-Library.Char_ord"
begin

chapter \<open>Definitions\<close>

section \<open>RelayFileWriter.writeAll: the output directories\<close>

text \<open>
  The part of \<^verbatim>\<open>RelayFileWriter.writeAll\<close> that decides where generated files go:
  the closures \<^verbatim>\<open>getDefinitionMeta\<close>, \<^verbatim>\<open>addCodegenDir\<close>, \<^verbatim>\<open>getGeneratedDirectory\<close> and
  the \<^verbatim>\<open>getOutputDirectory\<close> callback handed to \<^verbatim>\<open>generateExtraFiles\<close>, over the
  variables they close over. The closed-over variables are the fields of a state record
  that every closure takes and returns.

  A JavaScript \<^verbatim>\<open>Map\<close> is an association list in insertion order, read with
  \<^const>\<open>map_of\<close> and written with \<^const>\<open>AList.update\<close> (an existing key keeps its place
  and gets the new value, a new key goes to the end), which is what \<^verbatim>\<open>Map.prototype.set\<close>
  does. An object made by \<^verbatim>\<open>new CodegenDirectory(...)\<close> carries the number of objects made
  before it as its identity, so two objects are the same JavaScript object exactly when
  the records are equal. \<^verbatim>\<open>path.join\<close> and \<^verbatim>\<open>path.dirname\<close> belong to Node and are
  parameters of the model.
\<close>

record CodegenDirectory =
  cd_ref :: nat
  cd_path :: string
  cd_onlyValidate :: bool

text \<open>The fields of \<^verbatim>\<open>WriterConfig\<close> that the directory logic reads.\<close>

record WriterConfig =
  baseDir :: string
  outputDir :: "string option"

text \<open>A definition of a document: its optional name node and its syntax tree.\<close>

record 'ast definition_node =
  def_name :: "string option"
  def_ast :: 'ast

record 'ast definition_meta =
  dir :: string
  ast :: 'ast

text \<open>
  What a \<^verbatim>\<open>throw\<close> inside \<^verbatim>\<open>writeAll\<close> carries: the error of a failed
  \<^verbatim>\<open>invariant(...)\<close> with its formatted message, an error made by
  \<^verbatim>\<open>new Error(message)\<close>, and the \<^verbatim>\<open>TypeError\<close> of reading a property of
  \<^verbatim>\<open>undefined\<close> or \<^verbatim>\<open>null\<close>.
\<close>

datatype js_error = InvariantViolation string | NewError string | TypeError

record 'ast writer_state =
  allOutputDirectories :: "(string \<times> CodegenDirectory) list"
  configOutputDirectory :: "CodegenDirectory option"
  definitionsMeta :: "(string \<times> 'ast definition_meta) list"
  constructed :: "CodegenDirectory list"

text \<open>
  \<^verbatim>\<open>if (this._config.outputDir)\<close> tests an optional string: \<^verbatim>\<open>undefined\<close> and the
  empty string are falsy, every other string is truthy.
\<close>

fun truthy_string :: "string option \<Rightarrow> bool" where
  "truthy_string None = False"
| "truthy_string (Some s) = (s \<noteq> [])"

definition getDefinitionMeta ::
  "'ast writer_state \<Rightarrow> string \<Rightarrow> js_error + 'ast definition_meta" where
  "getDefinitionMeta st definitionName =
     (case map_of (definitionsMeta st) definitionName of
        None \<Rightarrow> Inl (InvariantViolation
          (''RelayFileWriter: Could not determine source for definition: '' @ [CHR 0x60]
            @ definitionName @ [CHR 0x60] @ ''.''))
      | Some definitionMeta \<Rightarrow> Inr definitionMeta)"

definition addCodegenDir ::
  "bool \<Rightarrow> string \<Rightarrow> 'ast writer_state \<Rightarrow> CodegenDirectory \<times> 'ast writer_state" where
  "addCodegenDir onlyValidate dirPath st =
     (let codegenDir = \<lparr>cd_ref = length (constructed st), cd_path = dirPath,
                         cd_onlyValidate = onlyValidate\<rparr>
      in (codegenDir,
          st\<lparr>allOutputDirectories := AList.update dirPath codegenDir (allOutputDirectories st),
             constructed := constructed st @ [codegenDir]\<rparr>))"

text \<open>
  The two nested \<^verbatim>\<open>forEach\<close> loops that fill \<^verbatim>\<open>definitionsMeta\<close>: a later definition
  of the same name replaces the earlier entry.
\<close>

fun add_definitions ::
  "(string \<Rightarrow> string \<Rightarrow> string) \<Rightarrow> (string \<Rightarrow> string) \<Rightarrow> string \<Rightarrow> string
    \<Rightarrow> 'ast definition_node list
    \<Rightarrow> (string \<times> 'ast definition_meta) list \<Rightarrow> (string \<times> 'ast definition_meta) list" where
  "add_definitions pjoin pdirname base filePath [] meta = meta"
| "add_definitions pjoin pdirname base filePath (d # ds) meta =
     add_definitions pjoin pdirname base filePath ds
       (case def_name d of
          None \<Rightarrow> meta
        | Some n \<Rightarrow>
            AList.update n \<lparr>dir = pjoin base (pdirname filePath), ast = def_ast d\<rparr> meta)"

fun add_documents ::
  "(string \<Rightarrow> string \<Rightarrow> string) \<Rightarrow> (string \<Rightarrow> string) \<Rightarrow> string
    \<Rightarrow> (string \<times> 'ast definition_node list) list
    \<Rightarrow> (string \<times> 'ast definition_meta) list \<Rightarrow> (string \<times> 'ast definition_meta) list" where
  "add_documents pjoin pdirname base [] meta = meta"
| "add_documents pjoin pdirname base ((filePath, defs) # docs) meta =
     add_documents pjoin pdirname base docs
       (add_definitions pjoin pdirname base filePath defs meta)"

text \<open>
  The state when the \<^verbatim>\<open>try\<close> block of \<^verbatim>\<open>writeAll\<close> is entered: the map of output
  directories holds the configured directory when \<^verbatim>\<open>config.outputDir\<close> is truthy and
  nothing otherwise, and \<^verbatim>\<open>definitionsMeta\<close> holds the named definitions of the documents.
\<close>

definition writeAll_setup ::
  "(string \<Rightarrow> string \<Rightarrow> string) \<Rightarrow> (string \<Rightarrow> string) \<Rightarrow> WriterConfig \<Rightarrow> bool
    \<Rightarrow> (string \<times> 'ast definition_node list) list \<Rightarrow> 'ast writer_state" where
  "writeAll_setup pjoin pdirname config onlyValidate documents =
     (let st0 = \<lparr>allOutputDirectories = [], configOutputDirectory = None,
                  definitionsMeta = [], constructed = []\<rparr>;
          st1 = (if truthy_string (outputDir config)
                 then (let (d, st) = addCodegenDir onlyValidate (the (outputDir config)) st0
                       in st\<lparr>configOutputDirectory := Some d\<rparr>)
                 else st0)
      in st1\<lparr>definitionsMeta :=
               add_documents pjoin pdirname (baseDir config) documents []\<rparr>)"

definition getGeneratedDirectory ::
  "(string \<Rightarrow> string \<Rightarrow> string) \<Rightarrow> bool \<Rightarrow> 'ast writer_state \<Rightarrow> string
    \<Rightarrow> js_error + (CodegenDirectory \<times> 'ast writer_state)" where
  "getGeneratedDirectory pjoin onlyValidate st definitionName =
     (case configOutputDirectory st of
        Some d \<Rightarrow> Inr (d, st)
      | None \<Rightarrow>
          (case getDefinitionMeta st definitionName of
             Inl e \<Rightarrow> Inl e
           | Inr m \<Rightarrow>
               (let generatedPath = pjoin (dir m) ''__generated__''
                in case map_of (allOutputDirectories st) generatedPath of
                     None \<Rightarrow> Inr (addCodegenDir onlyValidate generatedPath st)
                   | Some cachedDir \<Rightarrow> Inr (cachedDir, st))))"

text \<open>
  The first callback given to \<^verbatim>\<open>generateExtraFiles\<close>: \<^verbatim>\<open>dir || configDirectory\<close>
  takes \<^verbatim>\<open>dir\<close> when it is a non-empty string and \<^verbatim>\<open>config.outputDir\<close> otherwise, and
  the invariant fails when the result is falsy.
\<close>

definition getOutputDirectory ::
  "WriterConfig \<Rightarrow> bool \<Rightarrow> 'ast writer_state \<Rightarrow> string option
    \<Rightarrow> js_error + (CodegenDirectory \<times> 'ast writer_state)" where
  "getOutputDirectory config onlyValidate st dir_arg =
     (let outputDirectory = (if truthy_string dir_arg then dir_arg else outputDir config)
      in if \<not> truthy_string outputDirectory
         then Inl (InvariantViolation
           (''RelayFileWriter: cannot generate extra files without specifying ''
             @ ''an outputDir in the config or passing it in.''))
         else (case map_of (allOutputDirectories st) (the outputDirectory) of
                 None \<Rightarrow> Inr (addCodegenDir onlyValidate (the outputDirectory) st)
               | Some d \<Rightarrow> Inr (d, st)))"

text \<open>
  Inside the \<^verbatim>\<open>try\<close> block the two closures are called any number of times in any
  order: \<^verbatim>\<open>getGeneratedDirectory\<close> once per written document and both from the
  user's \<^verbatim>\<open>generateExtraFiles\<close>. A call that throws leaves the state as it was (both
  closures throw before they write), so a caller that catches the error goes on from the
  same state; the result of each call is kept in order.
\<close>

datatype directory_call = GetGeneratedDirectory string | GetOutputDirectory "string option"

definition directory_call ::
  "(string \<Rightarrow> string \<Rightarrow> string) \<Rightarrow> WriterConfig \<Rightarrow> bool \<Rightarrow> 'ast writer_state
    \<Rightarrow> directory_call \<Rightarrow> js_error + (CodegenDirectory \<times> 'ast writer_state)" where
  "directory_call pjoin config onlyValidate st c =
     (case c of
        GetGeneratedDirectory n \<Rightarrow> getGeneratedDirectory pjoin onlyValidate st n
      | GetOutputDirectory d \<Rightarrow> getOutputDirectory config onlyValidate st d)"

fun directory_calls ::
  "(string \<Rightarrow> string \<Rightarrow> string) \<Rightarrow> WriterConfig \<Rightarrow> bool \<Rightarrow> 'ast writer_state
    \<Rightarrow> directory_call list \<Rightarrow> (js_error + CodegenDirectory) list \<times> 'ast writer_state" where
  "directory_calls pjoin config onlyValidate st [] = ([], st)"
| "directory_calls pjoin config onlyValidate st (c # cs) =
     (case directory_call pjoin config onlyValidate st c of
        Inl e \<Rightarrow>
          (let (rs, st') = directory_calls pjoin config onlyValidate st cs
           in (Inl e # rs, st'))
      | Inr (d, st1) \<Rightarrow>
          (let (rs, st') = directory_calls pjoin config onlyValidate st1 cs
           in (Inr d # rs, st')))"

text \<open>
  The directory that \<^verbatim>\<open>getGeneratedDirectory\<close> answers with in a given state, read off
  the state without changing it; and the consistency of the bookkeeping: no two objects
  were constructed for one path, every object carries its construction index, the map
  holds exactly the constructed objects, each under its own path, and a configured
  directory is one of them.
\<close>

definition generated_directory_of ::
  "(string \<Rightarrow> string \<Rightarrow> string) \<Rightarrow> 'ast writer_state \<Rightarrow> string \<Rightarrow> CodegenDirectory option" where
  "generated_directory_of pjoin st n =
     (case configOutputDirectory st of
        Some d \<Rightarrow> Some d
      | None \<Rightarrow>
          (case map_of (definitionsMeta st) n of
             None \<Rightarrow> None
           | Some m \<Rightarrow> map_of (allOutputDirectories st) (pjoin (dir m) ''__generated__'')))"

definition directories_consistent :: "'ast writer_state \<Rightarrow> bool" where
  "directories_consistent st \<longleftrightarrow>
     distinct (map cd_path (constructed st)) \<and>
     (\<forall>i < length (constructed st). cd_ref (constructed st ! i) = i) \<and>
     (\<forall>p d. map_of (allOutputDirectories st) p = Some d
         \<longleftrightarrow> d \<in> set (constructed st) \<and> cd_path d = p) \<and>
     (\<forall>d. configOutputDirectory st = Some d \<longrightarrow> d \<in> set (constructed st))"

text \<open>
  Concrete inputs for the examples below: a join and a dirname that behave like Node's on
  plain relative paths, three documents in two source directories, and a sequence of
  calls as a run of \<^verbatim>\<open>writeAll\<close> with a \<^verbatim>\<open>generateExtraFiles\<close> hook could make them.
\<close>

definition example_join :: "string \<Rightarrow> string \<Rightarrow> string" where
  "example_join a b = a @ ''/'' @ b"

definition example_dirname :: "string \<Rightarrow> string" where
  "example_dirname p = rev (drop 1 (dropWhile (\<lambda>c. c \<noteq> CHR ''/'') (rev p)))"

definition example_documents :: "(string \<times> unit definition_node list) list" where
  "example_documents =
     [(''a/x.js'', [\<lparr>def_name = Some ''A'', def_ast = ()\<rparr>, \<lparr>def_name = None, def_ast = ()\<rparr>]),
      (''a/y.js'', [\<lparr>def_name = Some ''B'', def_ast = ()\<rparr>]),
      (''c/z.js'', [\<lparr>def_name = Some ''C'', def_ast = ()\<rparr>])]"

definition example_calls :: "directory_call list" where
  "example_calls =
     [GetGeneratedDirectory ''A'', GetOutputDirectory None, GetOutputDirectory (Some ''/extra''),
      GetGeneratedDirectory ''C'', GetGeneratedDirectory ''nope'', GetGeneratedDirectory ''B'']"

section \<open>RelayFileWriter.writeAll: the catch block\<close>

text \<open>
  JavaScript values, as far as the \<^verbatim>\<open>catch\<close> block of \<^verbatim>\<open>writeAll\<close> looks at them: the
  value that was thrown and the value that \<^verbatim>\<open>JSON.parse\<close> returns. An object is the list
  of the properties a read can find on it (own and inherited); objects are plain, so a
  read runs no getter. Of a number only its being zero is ever inspected; \<^verbatim>\<open>NaN\<close> is
  a constructor of its own.
\<close>

datatype jsval =
    JUndefined
  | JNull
  | JBool bool
  | JNum real
  | JNaN
  | JStr string
  | JArr "jsval list"
  | JObj "(string \<times> jsval) list"

text \<open>The conversion to a boolean that \<^verbatim>\<open>&&\<close>, \<^verbatim>\<open>||\<close> and \<^verbatim>\<open>if\<close> apply.\<close>

fun truthy :: "jsval \<Rightarrow> bool" where
  "truthy JUndefined = False"
| "truthy JNull = False"
| "truthy (JBool b) = b"
| "truthy (JNum x) = (x \<noteq> 0)"
| "truthy JNaN = False"
| "truthy (JStr s) = (s \<noteq> [])"
| "truthy (JArr xs) = True"
| "truthy (JObj fs) = True"

text \<open>
  The property read \<^verbatim>\<open>v.p\<close> for the three names the block reads (\<^verbatim>\<open>message\<close>,
  \<^verbatim>\<open>stack\<close>, \<^verbatim>\<open>name\<close>): on \<^verbatim>\<open>undefined\<close> and \<^verbatim>\<open>null\<close> it throws a TypeError
  (\<^const>\<open>None\<close>); a boolean, number, string or array has none of the three, so the read
  gives \<^verbatim>\<open>undefined\<close>; an object gives the property or \<^verbatim>\<open>undefined\<close>.
\<close>

fun getProp :: "jsval \<Rightarrow> string \<Rightarrow> jsval option" where
  "getProp JUndefined p = None"
| "getProp JNull p = None"
| "getProp (JObj fs) p = Some (case map_of fs p of None \<Rightarrow> JUndefined | Some v \<Rightarrow> v)"
| "getProp v p = Some JUndefined"

text \<open>
  The \<^verbatim>\<open>catch (error)\<close> block. \<^verbatim>\<open>JSON.parse\<close> (\<^const>\<open>None\<close> when it throws a
  SyntaxError) and the string conversion \<^verbatim>\<open>String(v)\<close>, which \<^verbatim>\<open>+\<close> also applies to
  its right operand, belong to the language and are parameters. The inner
  \<^verbatim>\<open>try { details = JSON.parse(error.message) } catch (_) {}\<close> leaves \<^verbatim>\<open>details\<close>
  undefined when the property read or the parse throws. The condition is a chain of
  \<^verbatim>\<open>&&\<close>: the two properties of \<^verbatim>\<open>details\<close> are read only when \<^verbatim>\<open>details\<close> is truthy.
  The final \<^verbatim>\<open>throw\<close> reads \<^verbatim>\<open>error.stack\<close> outside the inner \<^verbatim>\<open>try\<close>, so a TypeError
  raised there leaves the block in place of the new error.
\<close>

definition writeAll_catch ::
  "(string \<Rightarrow> jsval option) \<Rightarrow> (jsval \<Rightarrow> string) \<Rightarrow> jsval \<Rightarrow> js_error" where
  "writeAll_catch JSON_parse ToString error =
     (let details =
            (case getProp error ''message'' of
               None \<Rightarrow> JUndefined
             | Some m \<Rightarrow> (case JSON_parse (ToString m) of None \<Rightarrow> JUndefined | Some v \<Rightarrow> v));
          other =
            (case getProp error ''stack'' of
               None \<Rightarrow> TypeError
             | Some stack \<Rightarrow>
                 NewError (''Error writing modules:'' @ [CHR 0x0A]
                            @ ToString (if truthy stack then stack else error)))
      in if truthy details
         then (case (getProp details ''name'', getProp details ''message'') of
                 (Some n, Some m) \<Rightarrow>
                   if n = JStr ''GraphQL2Exception'' \<and> truthy m
                   then NewError (''GraphQL error writing modules:'' @ [CHR 0x0A] @ ToString m)
                   else other
               | _ \<Rightarrow> other)
         else other)"

text \<open>
  The \<^verbatim>\<open>try\<close> statement of \<^verbatim>\<open>writeAll\<close>: its body (the awaited writes, the extra
  files, the cleaning of the output directories) either completes or throws a value, a
  rejection of an awaited promise included; after a body that completed, \<^verbatim>\<open>writeAll\<close>
  returns \<^verbatim>\<open>allOutputDirectories\<close>.
\<close>

definition writeAll_try ::
  "(string \<Rightarrow> jsval option) \<Rightarrow> (jsval \<Rightarrow> string) \<Rightarrow> jsval + unit \<Rightarrow> 'dirs
    \<Rightarrow> js_error + 'dirs" where
  "writeAll_try JSON_parse ToString body dirs =
     (case body of
        Inr u \<Rightarrow> Inr dirs
      | Inl error \<Rightarrow> Inl (writeAll_catch JSON_parse ToString error))"

text \<open>
  The condition of the claim, in its own words: the message of the thrown value parses as
  JSON to an object whose \<^verbatim>\<open>name\<close> is the string \<^verbatim>\<open>GraphQL2Exception\<close> and which has
  a \<^verbatim>\<open>message\<close> field that is \<open>accepted\<close>. With \<open>accepted = (\<lambda>x. True)\<close> any
  message field will do; with \<open>accepted = truthy\<close> the field must be truthy.
\<close>

definition parses_as_GraphQL2Exception ::
  "(string \<Rightarrow> jsval option) \<Rightarrow> (jsval \<Rightarrow> string) \<Rightarrow> (jsval \<Rightarrow> bool) \<Rightarrow> jsval \<Rightarrow> bool" where
  "parses_as_GraphQL2Exception JSON_parse ToString accepted error =
     (case getProp error ''message'' of
        None \<Rightarrow> False
      | Some m \<Rightarrow>
          (case JSON_parse (ToString m) of
             Some (JObj fs) \<Rightarrow>
               map_of fs ''name'' = Some (JStr ''GraphQL2Exception'') \<and>
               (case map_of fs ''message'' of None \<Rightarrow> False | Some x \<Rightarrow> accepted x)
           | _ \<Rightarrow> False))"

text \<open>
  Concrete inputs for the examples: a string conversion, the JSON text of a
  GraphQL2Exception with a given message, a parse function that knows two such texts and
  rejects every other string, and an \<^verbatim>\<open>Error\<close> object with its three properties.
\<close>

definition example_ToString :: "jsval \<Rightarrow> string" where
  "example_ToString v =
     (case v of
        JStr s \<Rightarrow> s
      | JUndefined \<Rightarrow> ''undefined''
      | JNull \<Rightarrow> ''null''
      | JBool b \<Rightarrow> (if b then ''true'' else ''false'')
      | JNaN \<Rightarrow> ''NaN''
      | _ \<Rightarrow> ''[object Object]'')"

definition graphql2_json :: "string \<Rightarrow> string" where
  "graphql2_json msg =
     ''{'' @ [CHR 0x22] @ ''name'' @ [CHR 0x22] @ '':'' @ [CHR 0x22] @ ''GraphQL2Exception''
       @ [CHR 0x22] @ '','' @ [CHR 0x22] @ ''message'' @ [CHR 0x22] @ '':'' @ [CHR 0x22] @ msg
       @ [CHR 0x22] @ ''}''"

definition example_JSON_parse :: "string \<Rightarrow> jsval option" where
  "example_JSON_parse text =
     (if text = graphql2_json []
      then Some (JObj [(''name'', JStr ''GraphQL2Exception''), (''message'', JStr [])])
      else if text = graphql2_json ''Unknown type''
      then Some (JObj [(''name'', JStr ''GraphQL2Exception''), (''message'', JStr ''Unknown type'')])
      else None)"

definition example_Error :: "string \<Rightarrow> jsval" where
  "example_Error msg =
     JObj [(''name'', JStr ''Error''), (''message'', JStr msg),
           (''stack'', JStr (''Error: '' @ msg))]"

section \<open>StorageKey\<close>

text \<open>
  Modelled from the spec: the StorageKey encoder (sections 3.1 and 4.2). Its
  implementation is not among the source files; the store's interface file only names
  storage keys in comments. The definitions of this section follow the four steps of
  section 4.2 word for word.
\<close>

text \<open>
  Modelled from the spec: an argument value, "a JSON-serializable value (scalars, nulls,
  arrays, nested objects)". Numbers are integers: the spec gives no format for fractions.
\<close>

datatype arg_json =
    ArgNull
  | ArgBool bool
  | ArgNum int
  | ArgStr string
  | ArgList "arg_json list"
  | ArgObj "(string \<times> arg_json) list"

text \<open>
  Modelled from the spec: the syntax of an argument, "literal or variable reference", and
  the variables of a selector, which bind some names to values.
\<close>

datatype arg_ast = Literal arg_json | Variable string

type_synonym variables = "string \<Rightarrow> arg_json option"

text \<open>
  Modelled from the spec: step 1, "resolve each argument's value by evaluating its AST
  against variables". \<^const>\<open>None\<close> is the value \<^verbatim>\<open>undefined\<close> of an unbound variable.
\<close>

fun resolve_arg :: "variables \<Rightarrow> arg_ast \<Rightarrow> arg_json option" where
  "resolve_arg vars (Literal v) = Some v"
| "resolve_arg vars (Variable x) = vars x"

text \<open>
  Modelled from the spec: step 2, "drop arguments whose resolved value is undefined".
\<close>

definition resolve_args :: "(string \<times> arg_ast) list \<Rightarrow> variables \<Rightarrow> (string \<times> arg_json) list" where
  "resolve_args argDefs vars =
     List.map_filter (\<lambda>(n, a). map_option (Pair n) (resolve_arg vars a)) argDefs"

text \<open>
  Modelled from the spec: the "canonical JSON encoding (object keys sorted, no
  whitespace)" of step 4: decimal digits for a number, a quoted string with the quote and
  the backslash escaped, the elements of an array in order, the entries of an object in
  the lexicographic order of their keys.
\<close>

fun digits :: "nat \<Rightarrow> string" where
  "digits n =
     (if n < 10 then [char_of (48 + n)] else digits (n div 10) @ [char_of (48 + n mod 10)])"

definition show_int :: "int \<Rightarrow> string" where
  "show_int i = (if i < 0 then ''-'' @ digits (nat (- i)) else digits (nat i))"

definition json_string :: "string \<Rightarrow> string" where
  "json_string s =
     [CHR 0x22] @
     concat (map (\<lambda>c. if c = CHR 0x22 \<or> c = CHR 0x5C then [CHR 0x5C, c] else [c]) s) @
     [CHR 0x22]"

fun join_with :: "string \<Rightarrow> string list \<Rightarrow> string" where
  "join_with sep [] = []"
| "join_with sep [x] = x"
| "join_with sep (x # y # ys) = x @ sep @ join_with sep (y # ys)"

fun canonical_json :: "arg_json \<Rightarrow> string" where
  "canonical_json ArgNull = ''null''"
| "canonical_json (ArgBool b) = (if b then ''true'' else ''false'')"
| "canonical_json (ArgNum i) = show_int i"
| "canonical_json (ArgStr s) = json_string s"
| "canonical_json (ArgList xs) = ''['' @ join_with '','' (map canonical_json xs) @ '']''"
| "canonical_json (ArgObj kvs) =
     ''{'' @ join_with '',''
        (map (\<lambda>(k, s). json_string k @ '':'' @ s)
          (sort_key fst (map (\<lambda>(k, v). (k, canonical_json v)) kvs))) @ ''}''"

text \<open>
  Modelled from the spec: steps 3 and 4, "sort remaining argument names
  lexicographically" and "emit \<^verbatim>\<open>fieldName(arg1:v1,arg2:v2,...)\<close>", and the last
  sentence of section 4.2: "if no arguments remain after step 2, the key is
  \<^verbatim>\<open>fieldName\<close> alone".
\<close>

definition storageKey :: "string \<Rightarrow> (string \<times> arg_ast) list \<Rightarrow> variables \<Rightarrow> string" where
  "storageKey fieldName argDefs vars =
     (let args = sort_key fst (resolve_args argDefs vars)
      in if args = [] then fieldName
         else fieldName @ ''('' @
              join_with '','' (map (\<lambda>(n, v). n @ '':'' @ canonical_json v) args) @ '')'')"

text \<open>The variables that the arguments of a field reference, in the order of the arguments.\<close>

fun referenced_variables :: "(string \<times> arg_ast) list \<Rightarrow> string list" where
  "referenced_variables [] = []"
| "referenced_variables ((n, Literal v) # as) = referenced_variables as"
| "referenced_variables ((n, Variable x) # as) = x # referenced_variables as"

text \<open>
  The arguments of scenario 2 of the spec, \<^verbatim>\<open>friends(first: $count, orderby: "name")\<close>
  with a cursor argument that no variable binds, written in two orders.
\<close>

definition friends_args :: "(string \<times> arg_ast) list" where
  "friends_args = [(''first'', Variable ''count''), (''orderby'', Literal (ArgStr ''name'')),
                   (''after'', Variable ''cursor'')]"

definition friends_args' :: "(string \<times> arg_ast) list" where
  "friends_args' = [(''orderby'', Literal (ArgStr ''name'')), (''after'', Variable ''cursor''),
                    (''first'', Variable ''count'')]"

section \<open>Store: publish\<close>

text \<open>
  Modelled from the spec: the record source of sections 3.1 and 4.1 and \<^verbatim>\<open>Store.publish\<close>
  of section 4.7. The source file of the store's types declares \<^verbatim>\<open>publish\<close> but holds no
  implementation. A record source is an association list from DataID to an entry, read
  with \<^const>\<open>map_of\<close>; an id without an entry is UNKNOWN. \<^verbatim>\<open>publish\<close> visits the ids of
  the published source once each. The spec says that changed ids are accumulated and does
  not say when an id counts as changed; here it does when its entry in the base differs
  afterwards (for a merged record: when some field of the published record is new or has
  a new value).
\<close>

type_synonym DataID = string
type_synonym StorageKey = string

datatype field_value =
    Scalar string
  | ScalarList "string list"
  | Ref DataID
  | Refs "DataID option list"
  | Undefined

type_synonym record_fields = "(StorageKey \<times> field_value) list"

datatype entry = Existent record_fields | Nonexistent

type_synonym record_source = "(DataID \<times> entry) list"

definition getRecordIDs :: "record_source \<Rightarrow> DataID list" where
  "getRecordIDs src = remdups (map fst src)"

definition merge_fields :: "record_fields \<Rightarrow> record_fields \<Rightarrow> record_fields" where
  "merge_fields b new =
     fold (\<lambda>k acc. case map_of new k of None \<Rightarrow> acc | Some v \<Rightarrow> AList.update k v acc)
       (remdups (map fst new)) b"

definition fields_changed :: "record_fields \<Rightarrow> record_fields \<Rightarrow> bool" where
  "fields_changed b new = list_ex (\<lambda>k. map_of b k \<noteq> map_of new k) (remdups (map fst new))"

record store =
  base :: record_source
  updatedRecordIDs :: "DataID list"

definition publish_one :: "record_source \<Rightarrow> DataID \<Rightarrow> store \<Rightarrow> store" where
  "publish_one src i st =
     (case map_of src i of
        None \<Rightarrow> st
      | Some Nonexistent \<Rightarrow>
          st\<lparr>base := AList.update i Nonexistent (base st),
             updatedRecordIDs :=
               (if map_of (base st) i = Some Nonexistent then updatedRecordIDs st
                else i # updatedRecordIDs st)\<rparr>
      | Some (Existent r) \<Rightarrow>
          (case map_of (base st) i of
             Some (Existent b) \<Rightarrow>
               st\<lparr>base := AList.update i (Existent (merge_fields b r)) (base st),
                  updatedRecordIDs :=
                    (if fields_changed b r then i # updatedRecordIDs st
                     else updatedRecordIDs st)\<rparr>
           | _ \<Rightarrow>
               st\<lparr>base := AList.update i (Existent r) (base st),
                  updatedRecordIDs := i # updatedRecordIDs st\<rparr>))"

definition publish :: "record_source \<Rightarrow> store \<Rightarrow> store" where
  "publish src st = fold (publish_one src) (getRecordIDs src) st"

text \<open>
  Modelled from the spec: when two entries are the same state of a record. A record is
  "a mapping from StorageKey" to values (section 3.1), so two records with the same
  fields are the same record whatever the order of their lists.
\<close>

definition same_entry :: "entry option \<Rightarrow> entry option \<Rightarrow> bool" where
  "same_entry a b =
     (case (a, b) of
        (None, None) \<Rightarrow> True
      | (Some Nonexistent, Some Nonexistent) \<Rightarrow> True
      | (Some (Existent f), Some (Existent g)) \<Rightarrow> map_of f = map_of g
      | _ \<Rightarrow> False)"

text \<open>
  The entry of an id after a publish as a function of the published source and the base
  before, and the condition under which \<^const>\<open>publish_one\<close> records the id; both serve
  the proofs only.
\<close>

definition published_entry :: "record_source \<Rightarrow> record_source \<Rightarrow> DataID \<Rightarrow> entry option" where
  "published_entry src b i =
     (case map_of src i of
        None \<Rightarrow> map_of b i
      | Some Nonexistent \<Rightarrow> Some Nonexistent
      | Some (Existent r) \<Rightarrow>
          (case map_of b i of
             Some (Existent f) \<Rightarrow> Some (Existent (merge_fields f r))
           | _ \<Rightarrow> Some (Existent r)))"

definition entry_changed :: "record_source \<Rightarrow> record_source \<Rightarrow> DataID \<Rightarrow> bool" where
  "entry_changed src b i =
     (case map_of src i of
        None \<Rightarrow> False
      | Some Nonexistent \<Rightarrow> map_of b i \<noteq> Some Nonexistent
      | Some (Existent r) \<Rightarrow>
          (case map_of b i of
             Some (Existent f) \<Rightarrow> map_of f ++ map_of r \<noteq> map_of f
           | _ \<Rightarrow> True))"

text \<open>
  A base with four records and one id left in \<^verbatim>\<open>updatedRecordIDs\<close> by an earlier publish,
  and a source that merges into record 4, deletes record 5, repeats record 8 as it is and
  brings the new record 9.
\<close>

definition example_store :: store where
  "example_store =
     \<lparr>base = [(''4'', Existent [(''id'', Scalar ''4''), (''name'', Scalar ''Mark'')]),
              (''5'', Existent []), (''6'', Nonexistent), (''8'', Existent [(''id'', Scalar ''8'')])],
      updatedRecordIDs = [''6'']\<rparr>"

definition example_published :: record_source where
  "example_published =
     [(''4'', Existent [(''name'', Scalar ''Zuck''), (''age'', Scalar ''33'')]),
      (''5'', Nonexistent), (''8'', Existent [(''id'', Scalar ''8'')]),
      (''9'', Existent [(''id'', Scalar ''9'')])]"

chapter \<open>Properties\<close>

section \<open>The output directories of writeAll\<close>

lemma addCodegenDir_consistent:
  assumes "directories_consistent st" "map_of (allOutputDirectories st) p = None"
    and "addCodegenDir ov p st = (d, st1)"
  shows "directories_consistent st1"
proof -
  have nop: "cd_path x \<noteq> p" if "x \<in> set (constructed st)" for x
  proof
    assume "cd_path x = p"
    with that assms(1) have "map_of (allOutputDirectories st) p = Some x"
      unfolding directories_consistent_def by blast
    with assms(2) show False by simp
  qed
  from assms(3) have st1: "st1 = st\<lparr>allOutputDirectories :=
        AList.update p d (allOutputDirectories st), constructed := constructed st @ [d]\<rparr>"
    and d: "d = \<lparr>cd_ref = length (constructed st), cd_path = p, cd_onlyValidate = ov\<rparr>"
    by (auto simp: addCodegenDir_def Let_def)
  show ?thesis
    using assms(1) nop
    unfolding directories_consistent_def st1
    by (auto simp: update_conv' nth_append d)
qed

lemma directory_call_consistent:
  assumes "directories_consistent st" "directory_call pjoin config ov st c = Inr (d, st1)"
  shows "directories_consistent st1"
  using assms
  by (cases c)
     (auto simp: directory_call_def getGeneratedDirectory_def getOutputDirectory_def Let_def
           split: option.splits sum.splits if_splits
           intro: addCodegenDir_consistent)

text \<open>A call changes neither the configured directory nor the definitions, and never
  replaces an entry of the map.\<close>

lemma directory_call_frame:
  assumes "directory_call pjoin config ov st c = Inr (d, st1)"
  shows "configOutputDirectory st1 = configOutputDirectory st"
    and "definitionsMeta st1 = definitionsMeta st"
    and "map_of (allOutputDirectories st) p = Some x
          \<Longrightarrow> map_of (allOutputDirectories st1) p = Some x"
  using assms
  by (cases c;
      auto simp: directory_call_def getGeneratedDirectory_def getOutputDirectory_def Let_def
                 addCodegenDir_def update_conv'
           split: option.splits sum.splits if_splits)+

lemma directory_call_stable:
  assumes "directory_call pjoin config ov st c = Inr (d, st1)"
    and "generated_directory_of pjoin st n = Some x"
  shows "generated_directory_of pjoin st1 n = Some x"
  using assms(2) directory_call_frame[OF assms(1)]
  by (auto simp: generated_directory_of_def split: option.splits)

lemma getGeneratedDirectory_result:
  assumes "directory_call pjoin config ov st (GetGeneratedDirectory n) = Inr (d, st1)"
  shows "generated_directory_of pjoin st1 n = Some d"
  using assms
  by (auto simp: directory_call_def getGeneratedDirectory_def generated_directory_of_def
                 getDefinitionMeta_def Let_def addCodegenDir_def update_conv'
           split: option.splits sum.splits if_splits)

lemma directory_calls_frame:
  assumes "directory_calls pjoin config ov st cs = (rs, st')"
  shows "configOutputDirectory st' = configOutputDirectory st \<and>
         definitionsMeta st' = definitionsMeta st"
  using assms
  by (induction cs arbitrary: st rs)
     (auto split: sum.splits prod.splits dest: directory_call_frame(1,2))

lemma directory_calls_stable:
  assumes "directory_calls pjoin config ov st cs = (rs, st')"
    and "generated_directory_of pjoin st n = Some x"
  shows "generated_directory_of pjoin st' n = Some x"
  using assms
  by (induction cs arbitrary: st rs)
     (auto split: sum.splits prod.splits dest: directory_call_stable)

lemma directory_calls_consistent:
  assumes "directory_calls pjoin config ov st cs = (rs, st')" "directories_consistent st"
  shows "directories_consistent st'"
  using assms
  by (induction cs arbitrary: st rs)
     (auto split: sum.splits prod.splits dest: directory_call_consistent)

text \<open>What a call of \<^verbatim>\<open>getGeneratedDirectory\<close> returned during a run is what the final
  state still holds for that definition.\<close>

lemma directory_calls_results:
  assumes "directory_calls pjoin config ov st cs = (rs, st')"
    and "i < length cs" "cs ! i = GetGeneratedDirectory n" "rs ! i = Inr d"
  shows "generated_directory_of pjoin st' n = Some d"
  using assms
proof (induction cs arbitrary: st rs i)
  case Nil
  then show ?case by simp
next
  case (Cons c cs)
  show ?case
  proof (cases "directory_call pjoin config ov st c")
    case (Inl e)
    with Cons.prems obtain rs' where
      run: "directory_calls pjoin config ov st cs = (rs', st')" and rs: "rs = Inl e # rs'"
      by (auto split: prod.splits)
    from Cons.prems(4) rs obtain j where j: "i = Suc j" by (cases i) auto
    with Cons.prems rs show ?thesis using Cons.IH[OF run, of j] by simp
  next
    case (Inr r)
    obtain d1 st1 where r: "r = (d1, st1)" by (cases r)
    with Inr Cons.prems obtain rs' where
      run: "directory_calls pjoin config ov st1 cs = (rs', st')" and rs: "rs = Inr d1 # rs'"
      by (auto split: prod.splits)
    show ?thesis
    proof (cases i)
      case 0
      with Cons.prems rs have "c = GetGeneratedDirectory n" "d1 = d" by auto
      with Inr r have "generated_directory_of pjoin st1 n = Some d"
        using getGeneratedDirectory_result by blast
      then show ?thesis using directory_calls_stable[OF run] by blast
    next
      case (Suc j)
      with Cons.prems rs show ?thesis using Cons.IH[OF run, of j] by simp
    qed
  qed
qed

text \<open>A call of \<^verbatim>\<open>getGeneratedDirectory\<close> does not throw when a directory is configured
  or the definition is known.\<close>

lemma directory_calls_success:
  assumes "directory_calls pjoin config ov st cs = (rs, st')"
    and "i < length cs" "cs ! i = GetGeneratedDirectory n"
    and "configOutputDirectory st \<noteq> None \<or> map_of (definitionsMeta st) n \<noteq> None"
  shows "\<exists>d. rs ! i = Inr d"
  using assms
proof (induction cs arbitrary: st rs i)
  case Nil
  then show ?case by simp
next
  case (Cons c cs)
  show ?case
  proof (cases i)
    case 0
    with Cons.prems(3) have c: "c = GetGeneratedDirectory n" by simp
    from Cons.prems(4) have "\<exists>r. directory_call pjoin config ov st c = Inr r"
      unfolding c
      by (auto simp: directory_call_def getGeneratedDirectory_def getDefinitionMeta_def Let_def
               split: option.splits)
    then obtain r where "directory_call pjoin config ov st c = Inr r" ..
    with Cons.prems(1) 0 show ?thesis by (auto split: prod.splits)
  next
    case (Suc j)
    show ?thesis
    proof (cases "directory_call pjoin config ov st c")
      case (Inl e)
      with Cons.prems Suc show ?thesis
        using Cons.IH[of st _ j] by (auto split: prod.splits)
    next
      case (Inr r)
      obtain d1 st1 where r: "r = (d1, st1)" by (cases r)
      from Inr r have "configOutputDirectory st1 = configOutputDirectory st"
        "definitionsMeta st1 = definitionsMeta st"
        using directory_call_frame(1,2) by blast+
      with Cons.prems Suc Inr r show ?thesis
        using Cons.IH[of st1 _ j] by (auto split: prod.splits)
    qed
  qed
qed

lemma writeAll_setup_consistent:
  "directories_consistent (writeAll_setup pjoin pdirname config ov documents)"
  by (auto simp: writeAll_setup_def directories_consistent_def addCodegenDir_def Let_def)

lemma writeAll_setup_config:
  "configOutputDirectory (writeAll_setup pjoin pdirname config ov documents) =
     (if truthy_string (outputDir config)
      then Some \<lparr>cd_ref = 0, cd_path = the (outputDir config), cd_onlyValidate = ov\<rparr>
      else None)"
  by (simp add: writeAll_setup_def addCodegenDir_def Let_def)

lemma filter_distinct_key:
  assumes "distinct (map f xs)" "x \<in> set xs"
  shows "filter (\<lambda>y. f y = f x) xs = [x]"
  using assms
proof (induction xs)
  case Nil
  then show ?case by simp
next
  case (Cons a xs)
  show ?case
  proof (cases "a = x")
    case True
    from Cons.prems(1) have "f a \<notin> f ` set xs" by simp
    with True have "\<forall>y \<in> set xs. f y \<noteq> f x" by (metis imageI)
    then have "filter (\<lambda>y. f y = f x) xs = []" by (simp add: filter_empty_conv)
    with True show ?thesis by simp
  next
    case False
    with Cons.prems have "x \<in> set xs" "f a \<noteq> f x" by auto
    with Cons show ?thesis by simp
  qed
qed

lemma example_meta:
  "definitionsMeta (writeAll_setup example_join example_dirname config ov example_documents) =
     [(''A'', \<lparr>dir = baseDir config @ ''/a'', ast = ()\<rparr>),
      (''B'', \<lparr>dir = baseDir config @ ''/a'', ast = ()\<rparr>),
      (''C'', \<lparr>dir = baseDir config @ ''/c'', ast = ()\<rparr>)]"
  by (simp add: writeAll_setup_def example_documents_def example_join_def example_dirname_def
        Let_def split: prod.splits)

text \<open>
  Claim C9. The writer config specifies \<^verbatim>\<open>outputDir\<close> when the guard of
  \<^verbatim>\<open>writeAll\<close>, \<^verbatim>\<open>if (this._config.outputDir)\<close>, passes: the field is a non-empty
  string. An undefined or empty \<^verbatim>\<open>outputDir\<close> is absent; the invariant of the
  \<^verbatim>\<open>getOutputDirectory\<close> callback reports such a config as one "without specifying an
  outputDir". Take any sequence of calls of \<^verbatim>\<open>getGeneratedDirectory\<close> and
  \<^verbatim>\<open>getOutputDirectory\<close> made after the setup of \<^verbatim>\<open>writeAll\<close>, and the state \<open>st\<close>
  it ends in.

  \<^item> When the config specifies \<^verbatim>\<open>outputDir\<close>, exactly one \<^verbatim>\<open>CodegenDirectory\<close> was
    constructed for that path; every call of \<^verbatim>\<open>getGeneratedDirectory\<close> in the sequence
    returned it, whatever the definition name, and every further call returns it and
    leaves the state as it is.
  \<^item> When \<^verbatim>\<open>outputDir\<close> is absent, any two calls of \<^verbatim>\<open>getGeneratedDirectory\<close> in the
    sequence for definitions recorded with the same source directory returned the same
    object, the one the map holds under that directory's \<^verbatim>\<open>__generated__\<close> path.
  \<^item> In both cases no two \<^verbatim>\<open>CodegenDirectory\<close> objects were constructed for one path,
    and \<^verbatim>\<open>allOutputDirectories\<close> holds exactly the constructed objects, each under its
    own path.
\<close>

theorem getGeneratedDirectory_one_directory:
  assumes run: "directory_calls pjoin config ov
                  (writeAll_setup pjoin pdirname config ov documents) calls = (rs, st)"
  shows "(truthy_string (outputDir config) \<longrightarrow>
            (\<exists>d. filter (\<lambda>x. cd_path x = the (outputDir config)) (constructed st) = [d] \<and>
                 (\<forall>i n. i < length calls \<and> calls ! i = GetGeneratedDirectory n
                     \<longrightarrow> rs ! i = Inr d) \<and>
                 (\<forall>n. getGeneratedDirectory pjoin ov st n = Inr (d, st)))) \<and>
         (\<not> truthy_string (outputDir config) \<longrightarrow>
            (\<forall>i j n1 n2 m1 m2.
                i < length calls \<and> calls ! i = GetGeneratedDirectory n1 \<and>
                j < length calls \<and> calls ! j = GetGeneratedDirectory n2 \<and>
                map_of (definitionsMeta st) n1 = Some m1 \<and>
                map_of (definitionsMeta st) n2 = Some m2 \<and> dir m1 = dir m2
                \<longrightarrow> (\<exists>d. rs ! i = Inr d \<and> rs ! j = Inr d \<and>
                         cd_path d = pjoin (dir m1) ''__generated__'' \<and>
                         map_of (allOutputDirectories st) (cd_path d) = Some d))) \<and>
         distinct (map cd_path (constructed st)) \<and>
         (\<forall>p d. map_of (allOutputDirectories st) p = Some d
             \<longleftrightarrow> d \<in> set (constructed st) \<and> cd_path d = p)"
proof -
  let ?st0 = "writeAll_setup pjoin pdirname config ov documents"
  let ?d0 = "\<lparr>cd_ref = 0, cd_path = the (outputDir config), cd_onlyValidate = ov\<rparr>"
  have cons: "directories_consistent st"
    using directory_calls_consistent[OF run writeAll_setup_consistent] .
  have frame: "configOutputDirectory st = configOutputDirectory ?st0"
    "definitionsMeta st = definitionsMeta ?st0"
    using directory_calls_frame[OF run] by simp_all
  have part1: "\<exists>d. filter (\<lambda>x. cd_path x = the (outputDir config)) (constructed st) = [d] \<and>
                 (\<forall>i n. i < length calls \<and> calls ! i = GetGeneratedDirectory n
                     \<longrightarrow> rs ! i = Inr d) \<and>
                 (\<forall>n. getGeneratedDirectory pjoin ov st n = Inr (d, st))"
    if t: "truthy_string (outputDir config)"
  proof -
    from t have c0: "configOutputDirectory ?st0 = Some ?d0"
      by (simp add: writeAll_setup_config)
    with frame have c: "configOutputDirectory st = Some ?d0" by simp
    with cons have "?d0 \<in> set (constructed st)"
      by (simp add: directories_consistent_def)
    moreover from cons have "distinct (map cd_path (constructed st))"
      by (simp add: directories_consistent_def)
    ultimately have "filter (\<lambda>y. cd_path y = cd_path ?d0) (constructed st) = [?d0]"
      by (rule filter_distinct_key[rotated])
    then have f: "filter (\<lambda>x. cd_path x = the (outputDir config)) (constructed st) = [?d0]"
      by simp
    have r: "rs ! i = Inr ?d0"
      if i: "i < length calls" "calls ! i = GetGeneratedDirectory n" for i n
    proof -
      from c0 have "configOutputDirectory ?st0 \<noteq> None" by simp
      then obtain d where d: "rs ! i = Inr d"
        using directory_calls_success[OF run i] by blast
      from directory_calls_results[OF run i d] c show ?thesis
        using d by (simp add: generated_directory_of_def)
    qed
    have g: "getGeneratedDirectory pjoin ov st n = Inr (?d0, st)" for n
      using c by (simp add: getGeneratedDirectory_def)
    from f r g show ?thesis by blast
  qed
  have part2: "\<exists>d. rs ! i = Inr d \<and> rs ! j = Inr d \<and>
                   cd_path d = pjoin (dir m1) ''__generated__'' \<and>
                   map_of (allOutputDirectories st) (cd_path d) = Some d"
    if f: "\<not> truthy_string (outputDir config)"
      and i: "i < length calls" "calls ! i = GetGeneratedDirectory n1"
      and j: "j < length calls" "calls ! j = GetGeneratedDirectory n2"
      and m: "map_of (definitionsMeta st) n1 = Some m1" "map_of (definitionsMeta st) n2 = Some m2"
        "dir m1 = dir m2"
    for i j n1 n2 m1 m2
  proof -
    from f frame have c: "configOutputDirectory st = None"
      by (simp add: writeAll_setup_config)
    from m frame have "map_of (definitionsMeta ?st0) n1 \<noteq> None"
      "map_of (definitionsMeta ?st0) n2 \<noteq> None" by simp_all
    then obtain d1 d2 where d: "rs ! i = Inr d1" "rs ! j = Inr d2"
      using directory_calls_success[OF run i] directory_calls_success[OF run j] by blast
    from directory_calls_results[OF run i d(1)] c m
    have l1: "map_of (allOutputDirectories st) (pjoin (dir m1) ''__generated__'') = Some d1"
      by (simp add: generated_directory_of_def)
    from directory_calls_results[OF run j d(2)] c m
    have l2: "map_of (allOutputDirectories st) (pjoin (dir m1) ''__generated__'') = Some d2"
      by (simp add: generated_directory_of_def)
    from l1 l2 have "d1 = d2" by simp
    moreover from l1 cons have "cd_path d1 = pjoin (dir m1) ''__generated__''"
      unfolding directories_consistent_def by blast
    ultimately show ?thesis using d l1 by simp
  qed
  from cons have part3: "distinct (map cd_path (constructed st))"
    and part4: "\<forall>p d. map_of (allOutputDirectories st) p = Some d
             \<longleftrightarrow> d \<in> set (constructed st) \<and> cd_path d = p"
    unfolding directories_consistent_def by blast+
  from part1 part2 part3 part4 show ?thesis by blast
qed

text \<open>
  The theorem at two configurations, one with \<^verbatim>\<open>outputDir: '/out'\<close> and one without an
  output directory, over the example documents and calls: with the output directory the
  calls for \<^verbatim>\<open>A\<close> and \<^verbatim>\<open>C\<close> (definitions of different source directories) return one
  object for \<^verbatim>\<open>/out\<close>; without it the calls for \<^verbatim>\<open>A\<close> and \<^verbatim>\<open>B\<close> (both of directory
  \<^verbatim>\<open>a\<close>) return one object for \<^verbatim>\<open>/repo/a/__generated__\<close>.
\<close>

theorem getGeneratedDirectory_one_directory_witness:
  "truthy_string (outputDir \<lparr>baseDir = ''/repo'', outputDir = Some ''/out''\<rparr>) \<and>
   (\<exists>d. cd_path d = ''/out'' \<and>
        fst (directory_calls example_join \<lparr>baseDir = ''/repo'', outputDir = Some ''/out''\<rparr> False
              (writeAll_setup example_join example_dirname
                 \<lparr>baseDir = ''/repo'', outputDir = Some ''/out''\<rparr> False example_documents)
              example_calls) ! 0 = Inr d \<and>
        fst (directory_calls example_join \<lparr>baseDir = ''/repo'', outputDir = Some ''/out''\<rparr> False
              (writeAll_setup example_join example_dirname
                 \<lparr>baseDir = ''/repo'', outputDir = Some ''/out''\<rparr> False example_documents)
              example_calls) ! 3 = Inr d) \<and>
   \<not> truthy_string (outputDir \<lparr>baseDir = ''/repo'', outputDir = None\<rparr>) \<and>
   (\<exists>d. cd_path d = ''/repo/a/__generated__'' \<and>
        fst (directory_calls example_join \<lparr>baseDir = ''/repo'', outputDir = None\<rparr> False
              (writeAll_setup example_join example_dirname
                 \<lparr>baseDir = ''/repo'', outputDir = None\<rparr> False example_documents)
              example_calls) ! 0 = Inr d \<and>
        fst (directory_calls example_join \<lparr>baseDir = ''/repo'', outputDir = None\<rparr> False
              (writeAll_setup example_join example_dirname
                 \<lparr>baseDir = ''/repo'', outputDir = None\<rparr> False example_documents)
              example_calls) ! 5 = Inr d)"
proof -
  let ?cA = "\<lparr>baseDir = ''/repo'', outputDir = Some ''/out''\<rparr>"
  let ?cB = "\<lparr>baseDir = ''/repo'', outputDir = None\<rparr>"
  let ?sA = "writeAll_setup example_join example_dirname ?cA False example_documents"
  let ?sB = "writeAll_setup example_join example_dirname ?cB False example_documents"
  obtain rsA stA where runA: "directory_calls example_join ?cA False ?sA example_calls = (rsA, stA)"
    by (cases "directory_calls example_join ?cA False ?sA example_calls")
  obtain rsB stB where runB: "directory_calls example_join ?cB False ?sB example_calls = (rsB, stB)"
    by (cases "directory_calls example_join ?cB False ?sB example_calls")
  have tA: "truthy_string (outputDir ?cA)" and tB: "\<not> truthy_string (outputDir ?cB)"
    by simp_all
  from getGeneratedDirectory_one_directory[OF runA] tA
  obtain d where d: "filter (\<lambda>x. cd_path x = the (outputDir ?cA)) (constructed stA) = [d]"
    and rA: "\<forall>i n. i < length example_calls \<and> example_calls ! i = GetGeneratedDirectory n
               \<longrightarrow> rsA ! i = Inr d"
    by blast
  from d have "d \<in> set (filter (\<lambda>x. cd_path x = the (outputDir ?cA)) (constructed stA))"
    by simp
  then have pA: "cd_path d = ''/out''" by simp
  from rA have "rsA ! 0 = Inr d" "rsA ! 3 = Inr d"
    by (simp_all add: example_calls_def)
  with pA runA have A: "\<exists>d. cd_path d = ''/out'' \<and>
      fst (directory_calls example_join ?cA False ?sA example_calls) ! 0 = Inr d \<and>
      fst (directory_calls example_join ?cA False ?sA example_calls) ! 3 = Inr d"
    by auto
  have mB: "definitionsMeta stB = definitionsMeta ?sB"
    using directory_calls_frame[OF runB] by simp
  from getGeneratedDirectory_one_directory[OF runB] tB
  have "\<forall>i j n1 n2 m1 m2.
          i < length example_calls \<and> example_calls ! i = GetGeneratedDirectory n1 \<and>
          j < length example_calls \<and> example_calls ! j = GetGeneratedDirectory n2 \<and>
          map_of (definitionsMeta stB) n1 = Some m1 \<and>
          map_of (definitionsMeta stB) n2 = Some m2 \<and> dir m1 = dir m2
          \<longrightarrow> (\<exists>d. rsB ! i = Inr d \<and> rsB ! j = Inr d \<and>
                   cd_path d = example_join (dir m1) ''__generated__'' \<and>
                   map_of (allOutputDirectories stB) (cd_path d) = Some d)"
    by blast
  from this[rule_format, of 0 "''A''" 5 "''B''" "\<lparr>dir = ''/repo/a'', ast = ()\<rparr>"
      "\<lparr>dir = ''/repo/a'', ast = ()\<rparr>"]
  have "\<exists>d. rsB ! 0 = Inr d \<and> rsB ! 5 = Inr d \<and>
          cd_path d = example_join ''/repo/a'' ''__generated__''"
    by (simp add: mB example_meta example_calls_def) blast
  with runB have B: "\<exists>d. cd_path d = ''/repo/a/__generated__'' \<and>
      fst (directory_calls example_join ?cB False ?sB example_calls) ! 0 = Inr d \<and>
      fst (directory_calls example_join ?cB False ?sB example_calls) ! 5 = Inr d"
    by (auto simp: example_join_def)
  from tA A tB B show ?thesis by blast
qed

section \<open>The catch block of writeAll\<close>

text \<open>
  Claim C10, as amended. Whatever value other than \<^verbatim>\<open>undefined\<close> and \<^verbatim>\<open>null\<close> the
  body of the \<^verbatim>\<open>try\<close> statement throws (a plain value: reading its properties and
  converting it to a string do not throw), \<^verbatim>\<open>writeAll\<close> does not return: it throws a new
  \<^verbatim>\<open>Error\<close>. Its message begins with \<^verbatim>\<open>GraphQL error writing modules:\<close> when the
  message of the thrown value parses as JSON to an object whose \<^verbatim>\<open>name\<close> is
  \<^verbatim>\<open>GraphQL2Exception\<close> and whose \<^verbatim>\<open>message\<close> field is truthy, and with
  \<^verbatim>\<open>Error writing modules:\<close> in every other case.
\<close>

theorem writeAll_rethrows:
  assumes "error \<noteq> JUndefined" "error \<noteq> JNull"
  shows "\<exists>msg. writeAll_try JSON_parse ToString (Inl error) dirs = Inl (NewError msg) \<and>
           (if parses_as_GraphQL2Exception JSON_parse ToString truthy error
            then prefix ''GraphQL error writing modules:'' msg
            else prefix ''Error writing modules:'' msg)"
proof -
  from assms obtain m s where m: "getProp error ''message'' = Some m"
    and s: "getProp error ''stack'' = Some s"
    by (cases error) auto
  show ?thesis
  proof (cases "JSON_parse (ToString m)")
    case None
    with m s show ?thesis
      by (simp add: writeAll_try_def writeAll_catch_def parses_as_GraphQL2Exception_def Let_def)
  next
    case (Some details)
    show ?thesis
    proof (cases details)
      case (JObj fs)
      with Some m s show ?thesis
        by (auto simp: writeAll_try_def writeAll_catch_def parses_as_GraphQL2Exception_def Let_def
                 split: option.splits)
    qed (use Some m s in \<open>auto simp: writeAll_try_def writeAll_catch_def
            parses_as_GraphQL2Exception_def Let_def\<close>)
  qed
qed

text \<open>
  The theorem at two thrown errors: one whose message is the JSON text of a
  GraphQL2Exception with the message \<^verbatim>\<open>Unknown type\<close>, and a plain error whose message
  is not JSON.
\<close>

theorem writeAll_rethrows_witness:
  "example_Error (graphql2_json ''Unknown type'') \<noteq> JUndefined \<and>
   example_Error (graphql2_json ''Unknown type'') \<noteq> JNull \<and>
   parses_as_GraphQL2Exception example_JSON_parse example_ToString truthy
     (example_Error (graphql2_json ''Unknown type'')) \<and>
   (\<exists>msg. writeAll_try example_JSON_parse example_ToString
            (Inl (example_Error (graphql2_json ''Unknown type''))) () = Inl (NewError msg) \<and>
          prefix ''GraphQL error writing modules:'' msg) \<and>
   example_Error ''disk full'' \<noteq> JUndefined \<and> example_Error ''disk full'' \<noteq> JNull \<and>
   \<not> parses_as_GraphQL2Exception example_JSON_parse example_ToString truthy
       (example_Error ''disk full'') \<and>
   (\<exists>msg. writeAll_try example_JSON_parse example_ToString
            (Inl (example_Error ''disk full'')) () = Inl (NewError msg) \<and>
          prefix ''Error writing modules:'' msg)"
proof -
  let ?g = "example_Error (graphql2_json ''Unknown type'')"
  let ?e = "example_Error ''disk full''"
  have g: "?g \<noteq> JUndefined" "?g \<noteq> JNull" and e: "?e \<noteq> JUndefined" "?e \<noteq> JNull"
    by (simp_all add: example_Error_def)
  have pg: "parses_as_GraphQL2Exception example_JSON_parse example_ToString truthy ?g"
    by (simp add: parses_as_GraphQL2Exception_def example_Error_def example_ToString_def
          example_JSON_parse_def graphql2_json_def)
  have pe: "\<not> parses_as_GraphQL2Exception example_JSON_parse example_ToString truthy ?e"
    by (simp add: parses_as_GraphQL2Exception_def example_Error_def example_ToString_def
          example_JSON_parse_def graphql2_json_def)
  from writeAll_rethrows[OF g, of example_JSON_parse example_ToString "()"] pg
  have G: "\<exists>msg. writeAll_try example_JSON_parse example_ToString (Inl ?g) () = Inl (NewError msg) \<and>
          prefix ''GraphQL error writing modules:'' msg"
    by simp
  from writeAll_rethrows[OF e, of example_JSON_parse example_ToString "()"] pe
  have E: "\<exists>msg. writeAll_try example_JSON_parse example_ToString (Inl ?e) () = Inl (NewError msg) \<and>
          prefix ''Error writing modules:'' msg"
    by simp
  from g e pg pe G E show ?thesis by blast
qed

text \<open>
  The claim as first stated fails at two inputs. An error whose message is the JSON text
  \<^verbatim>\<open>{"name":"GraphQL2Exception","message":""}\<close> parses as JSON with that name and has a
  message field, yet the guard \<^verbatim>\<open>details.message\<close> is falsy for the empty string and
  the new message begins with \<^verbatim>\<open>Error writing modules:\<close>. And when the thrown value is
  \<^verbatim>\<open>undefined\<close> or \<^verbatim>\<open>null\<close> (a promise rejected without a reason), reading
  \<^verbatim>\<open>error.stack\<close> throws a TypeError, which leaves \<^verbatim>\<open>writeAll\<close> in place of either
  message.
\<close>

theorem writeAll_rethrows_counterexample:
  "parses_as_GraphQL2Exception example_JSON_parse example_ToString (\<lambda>x. True)
     (example_Error (graphql2_json [])) \<and>
   writeAll_try example_JSON_parse example_ToString (Inl (example_Error (graphql2_json []))) ()
     = Inl (NewError (''Error writing modules:'' @ [CHR 0x0A] @ ''Error: '' @ graphql2_json [])) \<and>
   \<not> prefix ''GraphQL error writing modules:''
       (''Error writing modules:'' @ [CHR 0x0A] @ ''Error: '' @ graphql2_json []) \<and>
   writeAll_try example_JSON_parse example_ToString (Inl JUndefined) () = Inl TypeError \<and>
   writeAll_try example_JSON_parse example_ToString (Inl JNull) () = Inl TypeError"
  by (simp add: parses_as_GraphQL2Exception_def example_Error_def example_ToString_def
        example_JSON_parse_def writeAll_try_def writeAll_catch_def Let_def)

section \<open>StorageKey: purity and canonicality\<close>

lemma resolve_args_agree:
  assumes "\<forall>x \<in> set (referenced_variables argDefs). v x = v' x"
  shows "resolve_args argDefs v = resolve_args argDefs v'"
  using assms
  by (induction argDefs rule: referenced_variables.induct)
     (simp_all add: resolve_args_def List.map_filter_def)

lemma mset_map_filter:
  "mset xs = mset ys \<Longrightarrow> mset (List.map_filter g xs) = mset (List.map_filter g ys)"
  by (metis List.map_filter_def mset_filter mset_map)

lemma resolve_args_keys:
  "fst ` set (resolve_args argDefs v) \<subseteq> fst ` set argDefs"
  by (force simp: resolve_args_def List.map_filter_def)

lemma resolve_args_distinct:
  "distinct (map fst argDefs) \<Longrightarrow> distinct (map fst (resolve_args argDefs v))"
proof (induction argDefs)
  case Nil
  then show ?case by (simp add: resolve_args_def List.map_filter_def)
next
  case (Cons a as)
  obtain n e where a: "a = (n, e)" by (cases a)
  from Cons.prems a have n: "n \<notin> fst ` set as" and d: "distinct (map fst as)" by auto
  from n resolve_args_keys[of as v] have n': "n \<notin> fst ` set (resolve_args as v)" by blast
  have unfold: "resolve_args (a # as) v =
      (case resolve_arg v e of None \<Rightarrow> resolve_args as v | Some x \<Rightarrow> (n, x) # resolve_args as v)"
    by (simp add: resolve_args_def List.map_filter_def a split: option.splits)
  from Cons.IH[OF d] n' show ?case
    by (simp add: unfold split: option.splits)
qed

text \<open>
  Claim C5. Let the variable bindings \<open>v\<close> and \<open>v'\<close> agree on every variable that the
  arguments of a field reference (they may differ on every other variable). Then the
  storage key of the field under \<open>v\<close> and under \<open>v'\<close> is the same string. Moreover,
  when the arguments are a mapping (no argument name occurs twice) and \<open>argDefs'\<close>
  lists the same arguments in any other order, the storage key of the field under
  \<open>argDefs\<close> and \<open>v\<close> and its storage key under \<open>argDefs'\<close> and \<open>v'\<close> are the same
  string.
\<close>

theorem storageKey_canonical:
  assumes agree: "\<forall>x \<in> set (referenced_variables argDefs). v x = v' x"
  shows "storageKey fieldName argDefs v = storageKey fieldName argDefs v' \<and>
         (distinct (map fst argDefs) \<and> mset argDefs' = mset argDefs
            \<longrightarrow> storageKey fieldName argDefs v = storageKey fieldName argDefs' v')"
proof -
  have same: "resolve_args argDefs v = resolve_args argDefs v'"
    using agree by (rule resolve_args_agree)
  then have pure: "storageKey fieldName argDefs v = storageKey fieldName argDefs v'"
    by (simp add: storageKey_def)
  have "storageKey fieldName argDefs v = storageKey fieldName argDefs' v'"
    if names: "distinct (map fst argDefs)" and perm: "mset argDefs' = mset argDefs"
  proof -
    have "sort_key fst (resolve_args argDefs v') = sort_key fst (resolve_args argDefs' v')"
    proof (rule sort_key_eq_sort_key)
      show "mset (resolve_args argDefs v') = mset (resolve_args argDefs' v')"
        unfolding resolve_args_def using perm by (intro mset_map_filter) simp
      show "inj_on fst (set (resolve_args argDefs v'))"
        using resolve_args_distinct[OF names, of v'] by (simp add: distinct_map)
    qed
    with same show ?thesis by (simp add: storageKey_def)
  qed
  with pure show ?thesis by blast
qed

text \<open>
  The theorem at the arguments of \<^verbatim>\<open>friends\<close> in two orders, under two bindings that
  agree on \<^verbatim>\<open>count\<close>, leave \<^verbatim>\<open>cursor\<close> unbound and differ on the unreferenced
  \<^verbatim>\<open>scale\<close>; the common key is the one of scenario 2 of the spec.
\<close>

theorem storageKey_canonical_witness:
  "distinct (map fst friends_args) \<and> mset friends_args' = mset friends_args \<and>
   storageKey ''friends'' friends_args [''count'' \<mapsto> ArgNum 10, ''scale'' \<mapsto> ArgNum 2] =
   storageKey ''friends'' friends_args [''count'' \<mapsto> ArgNum 10, ''scale'' \<mapsto> ArgNum 3] \<and>
   storageKey ''friends'' friends_args [''count'' \<mapsto> ArgNum 10, ''scale'' \<mapsto> ArgNum 2] =
   storageKey ''friends'' friends_args' [''count'' \<mapsto> ArgNum 10, ''scale'' \<mapsto> ArgNum 3] \<and>
   storageKey ''friends'' friends_args' [''count'' \<mapsto> ArgNum 10, ''scale'' \<mapsto> ArgNum 3] =
   ''friends(first:10,orderby:'' @ [CHR 0x22] @ ''name'' @ [CHR 0x22] @ '')''"
proof -
  have d: "distinct (map fst friends_args)" by (simp add: friends_args_def)
  have p: "mset friends_args' = mset friends_args"
    by (simp add: friends_args_def friends_args'_def)
  have a: "\<forall>x \<in> set (referenced_variables friends_args).
      [''count'' \<mapsto> ArgNum 10, ''scale'' \<mapsto> ArgNum 2] x =
      [''count'' \<mapsto> ArgNum 10, ''scale'' \<mapsto> ArgNum 3] x"
    by (simp add: friends_args_def)
  have k: "storageKey ''friends'' friends_args' [''count'' \<mapsto> ArgNum 10, ''scale'' \<mapsto> ArgNum 3] =
      ''friends(first:10,orderby:'' @ [CHR 0x22] @ ''name'' @ [CHR 0x22] @ '')''"
    by code_simp
  from storageKey_canonical[OF a, of "''friends''" friends_args'] d p k show ?thesis by blast
qed

section \<open>Store.publish merges record by record\<close>

lemma fold_update_keys:
  "map_of (fold (\<lambda>k acc. case m k of None \<Rightarrow> acc | Some v \<Rightarrow> AList.update k v acc) ks b) x =
     (if x \<in> set ks \<and> m x \<noteq> None then m x else map_of b x)"
  by (induction ks arbitrary: b) (auto simp: update_conv' split: option.splits)

lemma map_of_merge_fields: "map_of (merge_fields b r) = map_of b ++ map_of r"
proof (rule ext)
  fix x
  show "map_of (merge_fields b r) x = (map_of b ++ map_of r) x"
  proof (cases "map_of r x")
    case None
    then show ?thesis
      unfolding merge_fields_def fold_update_keys by (simp add: map_add_def)
  next
    case (Some v)
    then have "x \<in> fst ` set r" by (metis map_of_eq_None_iff option.distinct(1))
    with Some show ?thesis
      unfolding merge_fields_def fold_update_keys by (simp add: map_add_def)
  qed
qed

lemma fields_changed_iff:
  "fields_changed b r \<longleftrightarrow> map_of b ++ map_of r \<noteq> map_of b"
proof
  assume "fields_changed b r"
  then obtain k where k: "k \<in> fst ` set r" "map_of b k \<noteq> map_of r k"
    by (auto simp: fields_changed_def list_ex_iff)
  then have "map_of r k \<noteq> None" by (simp add: map_of_eq_None_iff)
  with k have "(map_of b ++ map_of r) k \<noteq> map_of b k"
    by (auto simp: map_add_def split: option.splits)
  then show "map_of b ++ map_of r \<noteq> map_of b" by metis
next
  assume "map_of b ++ map_of r \<noteq> map_of b"
  then obtain k where "(map_of b ++ map_of r) k \<noteq> map_of b k" by (metis ext)
  then have "map_of r k \<noteq> None \<and> map_of b k \<noteq> map_of r k"
    by (auto simp: map_add_def split: option.splits)
  then show "fields_changed b r"
    by (auto simp: fields_changed_def list_ex_iff map_of_eq_None_iff)
qed

lemma publish_one_other:
  "i \<noteq> k \<Longrightarrow> map_of (base (publish_one src k st)) i = map_of (base st) i"
  by (auto simp: publish_one_def update_conv' split: option.splits entry.splits)

lemma publish_one_same:
  "map_of (base (publish_one src k st)) k = published_entry src (base st) k"
  by (auto simp: publish_one_def published_entry_def update_conv'
           split: option.splits entry.splits)

lemma fold_publish_base:
  assumes "distinct ks"
  shows "map_of (base (fold (publish_one src) ks st)) i =
           (if i \<in> set ks then published_entry src (base st) i else map_of (base st) i)"
  using assms
proof (induction ks arbitrary: st)
  case Nil
  then show ?case by simp
next
  case (Cons k ks)
  from Cons.prems have d: "distinct ks" and k: "k \<notin> set ks" by auto
  show ?case
  proof (cases "i = k")
    case True
    with k Cons.IH[OF d, of "publish_one src k st"] show ?thesis
      by (simp add: publish_one_same)
  next
    case False
    then have same: "map_of (base (publish_one src k st)) i = map_of (base st) i"
      by (rule publish_one_other)
    have "published_entry src (base (publish_one src k st)) i =
               published_entry src (base st) i"
      unfolding published_entry_def same ..
    with False Cons.IH[OF d, of "publish_one src k st"] show ?thesis
      by (simp add: publish_one_other)
  qed
qed

lemma publish_base:
  "map_of (base (publish src st)) i = published_entry src (base st) i"
proof -
  have "map_of (base (publish src st)) i =
          (if i \<in> set (getRecordIDs src) then published_entry src (base st) i
           else map_of (base st) i)"
    unfolding publish_def by (rule fold_publish_base) (simp add: getRecordIDs_def)
  moreover have "published_entry src (base st) i = map_of (base st) i"
    if "i \<notin> set (getRecordIDs src)"
  proof -
    from that have "map_of src i = None"
      by (simp add: getRecordIDs_def map_of_eq_None_iff)
    then show ?thesis by (simp add: published_entry_def)
  qed
  ultimately show ?thesis by auto
qed

lemma publish_one_updated:
  "set (updatedRecordIDs (publish_one src k st)) =
     set (updatedRecordIDs st) \<union> (if entry_changed src (base st) k then {k} else {})"
  by (auto simp: publish_one_def entry_changed_def fields_changed_iff
           split: option.splits entry.splits)

lemma entry_changed_other:
  assumes "i \<noteq> k"
  shows "entry_changed src (base (publish_one src k st)) i = entry_changed src (base st) i"
proof -
  from assms have same: "map_of (base (publish_one src k st)) i = map_of (base st) i"
    by (rule publish_one_other)
  show ?thesis unfolding entry_changed_def same ..
qed

lemma fold_publish_updated:
  assumes "distinct ks"
  shows "set (updatedRecordIDs (fold (publish_one src) ks st)) =
           set (updatedRecordIDs st) \<union> {i \<in> set ks. entry_changed src (base st) i}"
  using assms
proof (induction ks arbitrary: st)
  case Nil
  then show ?case by simp
next
  case (Cons k ks)
  from Cons.prems have d: "distinct ks" and k: "k \<notin> set ks" by auto
  have "entry_changed src (base (publish_one src k st)) i = entry_changed src (base st) i"
    if "i \<in> set ks" for i
  proof -
    from that k have "i \<noteq> k" by blast
    then show ?thesis by (rule entry_changed_other)
  qed
  then have later: "{i \<in> set ks. entry_changed src (base (publish_one src k st)) i} =
               {i \<in> set ks. entry_changed src (base st) i}"
    by blast
  show ?case
    using Cons.IH[OF d, of "publish_one src k st"]
    by (auto simp: publish_one_updated later split: if_splits)
qed

lemma publish_updated:
  "set (updatedRecordIDs (publish src st)) =
     set (updatedRecordIDs st) \<union> {i. entry_changed src (base st) i}"
proof -
  have "i \<in> set (getRecordIDs src)" if c: "entry_changed src (base st) i" for i
  proof -
    from c have "map_of src i \<noteq> None"
      by (cases "map_of src i") (simp_all add: entry_changed_def)
    then have "i \<in> fst ` set src" by (simp add: map_of_eq_None_iff)
    then show ?thesis by (simp add: getRecordIDs_def)
  qed
  then have "{i \<in> set (getRecordIDs src). entry_changed src (base st) i} =
             {i. entry_changed src (base st) i}" by blast
  moreover have "set (updatedRecordIDs (publish src st)) =
      set (updatedRecordIDs st) \<union> {i \<in> set (getRecordIDs src). entry_changed src (base st) i}"
    unfolding publish_def by (rule fold_publish_updated) (simp add: getRecordIDs_def)
  ultimately show ?thesis by simp
qed

lemma entry_changed_same_entry:
  "entry_changed src b i \<longleftrightarrow> \<not> same_entry (map_of b i) (published_entry src b i)"
  by (auto simp: entry_changed_def same_entry_def published_entry_def map_of_merge_fields
           split: option.splits entry.splits)

lemma example_publish:
  "publish example_published example_store =
     \<lparr>base = [(''4'', Existent [(''id'', Scalar ''4''), (''name'', Scalar ''Zuck''),
                               (''age'', Scalar ''33'')]),
              (''5'', Nonexistent), (''6'', Nonexistent),
              (''8'', Existent [(''id'', Scalar ''8'')]),
              (''9'', Existent [(''id'', Scalar ''9'')])],
      updatedRecordIDs = [''9'', ''5'', ''4'', ''6'']\<rparr>"
  by (simp add: publish_def publish_one_def getRecordIDs_def example_published_def
        example_store_def merge_fields_def fields_changed_def)

text \<open>
  Claim C3. After \<^verbatim>\<open>publish(source)\<close>, for every id: when the published source has no
  entry for the id, the base holds what it held before; when the published source holds
  NONEXISTENT for it, the base holds NONEXISTENT; when the published source holds a
  record for it, the base holds a record in which every field of the published record
  has the published value and every other field has the value it had in the base record
  before (no value when the base had no record). The ids in \<^verbatim>\<open>updatedRecordIDs\<close>
  afterwards are those that were there before and those whose entry in the base is no
  longer the same.
\<close>

theorem publish_merges:
  "(map_of src i = None \<longrightarrow> map_of (base (publish src st)) i = map_of (base st) i) \<and>
   (map_of src i = Some Nonexistent \<longrightarrow> map_of (base (publish src st)) i = Some Nonexistent) \<and>
   (\<forall>r. map_of src i = Some (Existent r) \<longrightarrow>
      (\<exists>g. map_of (base (publish src st)) i = Some (Existent g) \<and>
           (\<forall>k. map_of g k =
                 (case map_of r k of
                    Some v \<Rightarrow> Some v
                  | None \<Rightarrow> (case map_of (base st) i of
                               Some (Existent f) \<Rightarrow> map_of f k
                             | _ \<Rightarrow> None))))) \<and>
   set (updatedRecordIDs (publish src st)) =
     set (updatedRecordIDs st) \<union>
     {j. \<not> same_entry (map_of (base st) j) (map_of (base (publish src st)) j)}"
proof -
  have after: "map_of (base (publish src st)) j = published_entry src (base st) j" for j
    by (rule publish_base)
  have c1: "map_of src i = None \<longrightarrow> map_of (base (publish src st)) i = map_of (base st) i"
    by (simp add: after published_entry_def)
  have c2: "map_of src i = Some Nonexistent \<longrightarrow>
            map_of (base (publish src st)) i = Some Nonexistent"
    by (simp add: after published_entry_def)
  have c3: "\<exists>g. map_of (base (publish src st)) i = Some (Existent g) \<and>
           (\<forall>k. map_of g k =
                 (case map_of r k of
                    Some v \<Rightarrow> Some v
                  | None \<Rightarrow> (case map_of (base st) i of
                               Some (Existent f) \<Rightarrow> map_of f k
                             | _ \<Rightarrow> None)))"
    if r: "map_of src i = Some (Existent r)" for r
  proof (cases "map_of (base st) i")
    case None
    with r show ?thesis
      by (auto simp: after published_entry_def split: option.splits)
  next
    case (Some e)
    show ?thesis
    proof (cases e)
      case (Existent f)
      with Some r have "map_of (base (publish src st)) i = Some (Existent (merge_fields f r))"
        by (simp add: after published_entry_def)
      moreover have "map_of (merge_fields f r) k =
          (case map_of r k of Some v \<Rightarrow> Some v | None \<Rightarrow> map_of f k)" for k
        by (simp add: map_of_merge_fields map_add_def)
      ultimately show ?thesis using Some Existent by (auto split: option.splits)
    next
      case Nonexistent
      with Some r show ?thesis
        by (auto simp: after published_entry_def split: option.splits)
    qed
  qed
  have c4: "set (updatedRecordIDs (publish src st)) =
     set (updatedRecordIDs st) \<union>
     {j. \<not> same_entry (map_of (base st) j) (map_of (base (publish src st)) j)}"
    by (simp add: publish_updated entry_changed_same_entry after)
  from c1 c2 c3 c4 show ?thesis by blast
qed

text \<open>
  The theorem at the example: record 4 keeps its \<^verbatim>\<open>id\<close>, takes the published \<^verbatim>\<open>name\<close>
  and gains \<^verbatim>\<open>age\<close>; record 5 becomes NONEXISTENT; record 6, absent from the source,
  stays as it was; the ids 4, 5 and 9 join the id 6 in \<^verbatim>\<open>updatedRecordIDs\<close> and the
  unchanged record 8 does not.
\<close>

theorem publish_merges_witness:
  "map_of example_published ''4'' =
     Some (Existent [(''name'', Scalar ''Zuck''), (''age'', Scalar ''33'')]) \<and>
   (\<exists>g. map_of (base (publish example_published example_store)) ''4'' = Some (Existent g) \<and>
        map_of g ''id'' = Some (Scalar ''4'') \<and> map_of g ''name'' = Some (Scalar ''Zuck'') \<and>
        map_of g ''age'' = Some (Scalar ''33'')) \<and>
   map_of example_published ''5'' = Some Nonexistent \<and>
   map_of (base (publish example_published example_store)) ''5'' = Some Nonexistent \<and>
   map_of example_published ''6'' = None \<and>
   map_of (base (publish example_published example_store)) ''6'' = Some Nonexistent \<and>
   set (updatedRecordIDs (publish example_published example_store)) =
     {''4'', ''5'', ''6'', ''9''} \<and>
   publish example_published example_store =
     \<lparr>base = [(''4'', Existent [(''id'', Scalar ''4''), (''name'', Scalar ''Zuck''),
                               (''age'', Scalar ''33'')]),
              (''5'', Nonexistent), (''6'', Nonexistent),
              (''8'', Existent [(''id'', Scalar ''8'')]),
              (''9'', Existent [(''id'', Scalar ''9'')])],
      updatedRecordIDs = [''9'', ''5'', ''4'', ''6'']\<rparr>"
proof -
  have s4: "map_of example_published ''4'' =
      Some (Existent [(''name'', Scalar ''Zuck''), (''age'', Scalar ''33'')])"
    and s5: "map_of example_published ''5'' = Some Nonexistent"
    and s6: "map_of example_published ''6'' = None"
    by (simp_all add: example_published_def)
  have b4: "map_of (base example_store) ''4'' =
      Some (Existent [(''id'', Scalar ''4''), (''name'', Scalar ''Mark'')])"
    and b6: "map_of (base example_store) ''6'' = Some Nonexistent"
    by (simp_all add: example_store_def)
  from publish_merges[of example_published "''4''" example_store] s4
  obtain g where g: "map_of (base (publish example_published example_store)) ''4'' = Some (Existent g)"
    and gk: "\<forall>k. map_of g k =
        (case map_of [(''name'', Scalar ''Zuck''), (''age'', Scalar ''33'')] k of
           Some v \<Rightarrow> Some v
         | None \<Rightarrow> (case map_of (base example_store) ''4'' of
                      Some (Existent f) \<Rightarrow> map_of f k
                    | _ \<Rightarrow> None))"
    by blast
  from gk have "map_of g ''id'' = Some (Scalar ''4'')" "map_of g ''name'' = Some (Scalar ''Zuck'')"
    "map_of g ''age'' = Some (Scalar ''33'')"
    by (simp_all add: b4)
  with g have c4: "\<exists>g. map_of (base (publish example_published example_store)) ''4'' = Some (Existent g) \<and>
        map_of g ''id'' = Some (Scalar ''4'') \<and> map_of g ''name'' = Some (Scalar ''Zuck'') \<and>
        map_of g ''age'' = Some (Scalar ''33'')"
    by blast
  from publish_merges[of example_published "''5''" example_store] s5
  have c5: "map_of (base (publish example_published example_store)) ''5'' = Some Nonexistent"
    by blast
  from publish_merges[of example_published "''6''" example_store] s6 b6
  have c6: "map_of (base (publish example_published example_store)) ''6'' = Some Nonexistent"
    by simp
  have ev: "publish example_published example_store =
     \<lparr>base = [(''4'', Existent [(''id'', Scalar ''4''), (''name'', Scalar ''Zuck''),
                               (''age'', Scalar ''33'')]),
              (''5'', Nonexistent), (''6'', Nonexistent),
              (''8'', Existent [(''id'', Scalar ''8'')]),
              (''9'', Existent [(''id'', Scalar ''9'')])],
      updatedRecordIDs = [''9'', ''5'', ''4'', ''6'']\<rparr>"
    by (rule example_publish)
  have u: "set (updatedRecordIDs (publish example_published example_store)) =
     {''4'', ''5'', ''6'', ''9''}"
    unfolding ev by auto
  from s4 c4 s5 c5 s6 c6 u ev show ?thesis by blast
qed

end
